theory Spec2Isabelle
  imports Main
begin

section \<open>Post records and the posts table\<close>

text \<open>
  The dictionaries built by \<open>parse_posts\<close> (scraper.py, lines 116-125) have the six keys
  \<open>id\<close>, \<open>title\<close>, \<open>url\<close>, \<open>user\<close>, \<open>points\<close>, \<open>time_posted\<close>. The key \<open>id\<close> is
  called \<open>post_id\<close> here, since \<open>id\<close> is the identity function of HOL. Python's \<open>None\<close>
  is \<open>None\<close> of an option type, a Python \<open>int\<close> is an unbounded \<open>int\<close>.

  A row of the table \<open>posts\<close> (lines 38-46) has the same six columns and \<open>scraped_at\<close>.
  The columns \<open>title\<close> and \<open>scraped_at\<close> are \<open>NOT NULL\<close>, the others may hold \<open>NULL\<close>;
  \<open>url\<close> is never bound to \<open>None\<close> by this program, so it is a plain string.
\<close>

record post =
  post_id :: int
  title :: string
  url :: string
  user :: "string option"
  points :: int
  time_posted :: "string option"

record row = post +
  scraped_at :: string

datatype error =
    ValueError
  | OverflowError
  | ProgrammingError
  | OperationalError
  | FileNotFoundError
  | RequestException

subsection \<open>The upsert statement\<close>

text \<open>
  The table is the list of its rows; the order of the list carries no meaning.
  \<open>find_row\<close> is the lookup by primary key.
\<close>

definition find_row :: "int \<Rightarrow> row list \<Rightarrow> row option" where
  "find_row i t = find (\<lambda>r. post_id r = i) t"

text \<open>\<open>COALESCE(a, b)\<close>: the first argument that is not \<open>NULL\<close>.\<close>

definition coalesce :: "'a option \<Rightarrow> 'a option \<Rightarrow> 'a option" where
  "coalesce a b = (case a of Some v \<Rightarrow> Some v | None \<Rightarrow> b)"

text \<open>
  The \<open>DO UPDATE SET\<close> clause (lines 136-142): \<open>old\<close> is the stored row (\<open>posts\<close>),
  \<open>excluded\<close> the row that the insert proposed.
\<close>

definition do_update :: "row \<Rightarrow> row \<Rightarrow> row" where
  "do_update old excluded =
     old\<lparr>title := title excluded,
         url := url excluded,
         user := user excluded,
         points := points excluded,
         time_posted := coalesce (time_posted excluded) (time_posted old),
         scraped_at := scraped_at excluded\<rparr>"

text \<open>
  \<open>INSERT INTO posts ... ON CONFLICT(id) DO UPDATE SET ...\<close> (lines 134-142): the stored
  row with the new row's id is updated in place; when there is none the row is inserted.
\<close>

fun insert_on_conflict :: "row \<Rightarrow> row list \<Rightarrow> row list" where
  "insert_on_conflict new [] = [new]"
| "insert_on_conflict new (old # t) =
     (if post_id old = post_id new then do_update old new # t
      else old # insert_on_conflict new t)"

subsection \<open>The connection\<close>

text \<open>
  The state of a \<open>sqlite3.Connection\<close> on the file \<open>hs.db\<close>: the committed rows of
  \<open>posts\<close>, the rows as the open transaction sees them (\<open>None\<close> when no transaction is
  open), whether the table \<open>posts\<close> exists, whether the journal is in write-ahead mode, and
  whether the connection was closed.
\<close>

record connection =
  committed :: "row list"
  pending :: "row list option"
  posts_table :: bool
  journal_wal :: bool
  closed :: bool

definition view :: "connection \<Rightarrow> row list" where
  "view c = (case pending c of None \<Rightarrow> committed c | Some t \<Rightarrow> t)"

text \<open>
  The module \<open>sqlite3\<close> converts a Python \<open>int\<close> to a 64-bit signed SQLite integer and
  raises \<open>OverflowError\<close> for a value outside its range.
\<close>

definition int64 :: "int \<Rightarrow> bool" where
  "int64 n \<longleftrightarrow> - (2 ^ 63) \<le> n \<and> n < 2 ^ 63"

text \<open>The parameters \<open>{**row, "scraped_at": now_iso}\<close> of line 147.\<close>

definition with_scraped_at :: "post \<Rightarrow> string \<Rightarrow> row" where
  "with_scraped_at p now_iso =
     \<lparr>post_id = post_id p, title = title p, url = url p, user = user p,
      points = points p, time_posted = time_posted p, scraped_at = now_iso\<rparr>"

text \<open>Binding them to the statement: the two integers must fit.\<close>

definition bind_parameters :: "post \<Rightarrow> string \<Rightarrow> error + row" where
  "bind_parameters p now_iso =
     (if int64 (post_id p) \<and> int64 (points p)
      then Inr (with_scraped_at p now_iso)
      else Inl OverflowError)"

text \<open>
  \<open>conn.execute(sql, {**row, "scraped_at": now_iso})\<close> (line 147). A closed connection
  raises \<open>ProgrammingError\<close>; compiling the statement raises \<open>OperationalError\<close> when the
  table does not exist; the connection then opens a transaction if none is open, and binds
  the parameters, which may raise \<open>OverflowError\<close>; at last the statement runs.
\<close>

definition execute :: "post \<Rightarrow> string \<Rightarrow> connection \<Rightarrow> (error + unit) \<times> connection" where
  "execute p now_iso c =
     (if closed c then (Inl ProgrammingError, c)
      else if \<not> posts_table c then (Inl OperationalError, c)
      else (case bind_parameters p now_iso of
              Inl e \<Rightarrow> (Inl e, c\<lparr>pending := Some (view c)\<rparr>)
            | Inr r \<Rightarrow> (Inr (), c\<lparr>pending := Some (insert_on_conflict r (view c))\<rparr>)))"

definition commit :: "connection \<Rightarrow> (error + unit) \<times> connection" where
  "commit c =
     (if closed c then (Inl ProgrammingError, c)
      else (Inr (), c\<lparr>committed := view c, pending := None\<rparr>))"

definition rollback :: "connection \<Rightarrow> (error + unit) \<times> connection" where
  "rollback c =
     (if closed c then (Inl ProgrammingError, c)
      else (Inr (), c\<lparr>pending := None\<rparr>))"

text \<open>The loop of lines 146-147; an exception leaves it at once.\<close>

fun execute_all :: "post list \<Rightarrow> string \<Rightarrow> connection \<Rightarrow> (error + unit) \<times> connection" where
  "execute_all [] now_iso c = (Inr (), c)"
| "execute_all (p # ps) now_iso c =
     (case execute p now_iso c of
        (Inl e, c') \<Rightarrow> (Inl e, c')
      | (Inr u, c') \<Rightarrow> execute_all ps now_iso c')"

text \<open>
  \<open>upsert_posts\<close> (lines 130-147). The clock is read once, at line 131, before the loop:
  its value is the argument \<open>now_iso\<close>. The block \<open>with conn:\<close> commits when its body
  ends normally; when the body raises, it rolls back and the exception goes on to the
  caller (an exception of the rollback itself takes its place).
\<close>

definition upsert_posts :: "connection \<Rightarrow> string \<Rightarrow> post list \<Rightarrow> (error + unit) \<times> connection" where
  "upsert_posts conn now_iso posts =
     (case execute_all posts now_iso conn of
        (Inr u, c) \<Rightarrow> commit c
      | (Inl e, c) \<Rightarrow>
          (case rollback c of
             (Inl e', c') \<Rightarrow> (Inl e', c')
           | (Inr u, c') \<Rightarrow> (Inl e, c')))"

section \<open>The document tree\<close>

text \<open>
  Strings. A Python \<open>str\<close> is a sequence of code points; a \<open>char\<close> of HOL has eight bits.
  Here the \<open>char\<close> with code \<open>n\<close> stands for the code point \<open>n\<close>: the model covers
  the texts whose code points are below 256, and on these the character classes below are
  the ones of Python.

  \<open>isspace\<close> is \<open>str.isspace\<close>, the white space that \<open>str.strip()\<close> removes:
  U+0009-U+000D, U+001C-U+0020, U+0085, U+00A0. \<open>isdigit\<close> is \<open>str.isdigit\<close>: the decimal
  digits \<open>0\<close>-\<open>9\<close> and the superscript digits U+00B2, U+00B3, U+00B9. \<open>isdecimal\<close> holds of
  the decimal digits only, the characters that \<open>int()\<close> reads as digits.
\<close>

definition isspace :: "char \<Rightarrow> bool" where
  "isspace c = (let n = (of_char c :: nat)
                in (9 \<le> n \<and> n \<le> 13) \<or> (28 \<le> n \<and> n \<le> 32) \<or> n = 133 \<or> n = 160)"

definition isdigit :: "char \<Rightarrow> bool" where
  "isdigit c = (let n = (of_char c :: nat)
                in (48 \<le> n \<and> n \<le> 57) \<or> n = 178 \<or> n = 179 \<or> n = 185)"

definition isdecimal :: "char \<Rightarrow> bool" where
  "isdecimal c = (let n = (of_char c :: nat) in 48 \<le> n \<and> n \<le> 57)"

definition digit_value :: "char \<Rightarrow> nat" where
  "digit_value c = of_char c - 48"

text \<open>\<open>s.strip()\<close> and \<open>s.startswith(p)\<close>.\<close>

definition strip :: "string \<Rightarrow> string" where
  "strip s = rev (dropWhile isspace (rev (dropWhile isspace s)))"

fun startswith :: "string \<Rightarrow> string \<Rightarrow> bool" where
  "startswith s [] = True"
| "startswith [] (p # ps) = False"
| "startswith (c # cs) (p # ps) = (c = p \<and> startswith cs ps)"

text \<open>
  \<open>int(s)\<close> for a string \<open>s\<close>. White space at both ends is dropped: the ASCII white space
  U+0009-U+000D and U+0020, and U+0085 and U+00A0, which \<open>int\<close> turns into spaces first
  (U+001C-U+001F are not accepted). Then comes an optional sign and a non-empty run of
  decimal digits, in which single underscores may separate digits. Everything else raises
  \<open>ValueError\<close>. The limit that recent interpreters put on the number of digits
  (4300 unless configured) is not modelled.
\<close>

definition int_space :: "char \<Rightarrow> bool" where
  "int_space c = (let n = (of_char c :: nat)
                  in (9 \<le> n \<and> n \<le> 13) \<or> n = 32 \<or> n = 133 \<or> n = 160)"

fun int_digits :: "nat \<Rightarrow> string \<Rightarrow> nat option" where
  "int_digits acc [] = Some acc"
| "int_digits acc [c] = (if isdecimal c then Some (10 * acc + digit_value c) else None)"
| "int_digits acc (c # d # cs) =
     (if isdecimal c then int_digits (10 * acc + digit_value c) (d # cs)
      else if c = CHR ''_'' \<and> isdecimal d then int_digits (10 * acc + digit_value d) cs
      else None)"

definition int_literal :: "string \<Rightarrow> nat option" where
  "int_literal s =
     (case s of
        [] \<Rightarrow> None
      | c # cs \<Rightarrow> if isdecimal c then int_digits (digit_value c) cs else None)"

definition py_int :: "string \<Rightarrow> error + int" where
  "py_int s =
     (let body = rev (dropWhile int_space (rev (dropWhile int_space s)));
          negative = (body \<noteq> [] \<and> hd body = CHR ''-'');
          signed = (body \<noteq> [] \<and> (hd body = CHR ''-'' \<or> hd body = CHR ''+''))
      in case int_literal (if signed then tl body else body) of
           None \<Rightarrow> Inl ValueError
         | Some n \<Rightarrow> Inr (if negative then - int n else int n))"

text \<open>
  The tree that \<open>BeautifulSoup(html, "html.parser")\<close> builds. A \<open>Tag\<close> has a name, its
  attribute dictionary (as an association list, read with \<open>map_of\<close>) and its contents.
  \<open>NavigableString\<close> is a piece of text. \<open>Comment\<close> stands for every string that
  \<open>get_text\<close> leaves out: comments, declarations, and the text inside \<open>script\<close>, \<open>style\<close>
  and \<open>template\<close> elements. The parser itself is a library; \<open>parse_posts\<close> below takes it as
  a parameter.
\<close>

datatype node =
    Tag string "(string \<times> string) list" "node list"
  | NavigableString string
  | Comment string

text \<open>
  A \<open>Tag\<close> object of the library knows its place in the tree. An \<open>element\<close> is a node
  together with its ancestors (the nearest first) and the siblings that follow it.
\<close>

record element =
  parents :: "node list"
  el :: node
  next_siblings :: "node list"

definition is_tag :: "node \<Rightarrow> bool" where
  "is_tag n = (case n of Tag nm at cs \<Rightarrow> True | _ \<Rightarrow> False)"

definition name :: "node \<Rightarrow> string option" where
  "name n = (case n of Tag nm at cs \<Rightarrow> Some nm | _ \<Rightarrow> None)"

definition contents :: "node \<Rightarrow> node list" where
  "contents n = (case n of Tag nm at cs \<Rightarrow> cs | _ \<Rightarrow> [])"

text \<open>\<open>tag.get(key)\<close>: the attribute's value, or \<open>None\<close>.\<close>

definition get :: "node \<Rightarrow> string \<Rightarrow> string option" where
  "get n key = (case n of Tag nm at cs \<Rightarrow> map_of at key | _ \<Rightarrow> None)"

text \<open>
  The value of the attribute \<open>class\<close> is a list of names separated by white space;
  \<open>split_ws\<close> is that list.
\<close>

fun split_ws_aux :: "string \<Rightarrow> string \<Rightarrow> string list" where
  "split_ws_aux w [] = (if w = [] then [] else [rev w])"
| "split_ws_aux w (c # cs) =
     (if isspace c then (if w = [] then [] else [rev w]) @ split_ws_aux [] cs
      else split_ws_aux (c # w) cs)"

definition split_ws :: "string \<Rightarrow> string list" where
  "split_ws s = split_ws_aux [] s"

definition classes :: "node \<Rightarrow> string list" where
  "classes n = (case get n ''class'' of None \<Rightarrow> [] | Some v \<Rightarrow> split_ws v)"

text \<open>
  \<open>get_text()\<close> concatenates the text strings below a tag, in document order;
  \<open>get_text(strip=True)\<close> strips each of them first and leaves out the empty ones.
\<close>

fun all_strings :: "node \<Rightarrow> string list" where
  "all_strings (Tag nm at cs) = concat (map all_strings cs)"
| "all_strings (NavigableString s) = [s]"
| "all_strings (Comment s) = []"

definition get_text :: "node \<Rightarrow> string" where
  "get_text n = concat (all_strings n)"

definition get_text_strip :: "node \<Rightarrow> string" where
  "get_text_strip n = concat (filter (\<lambda>s. s \<noteq> []) (map strip (all_strings n)))"

subsection \<open>Selectors\<close>

text \<open>
  The program uses selectors of two shapes: a compound selector \<open>tag.class\<close>, and two
  compound selectors joined by the descendant combinator (\<open>span.titleline a\<close>). A
  \<open>selector\<close> is the list of its compound selectors; a compound selector is a tag name
  and the class it asks for, if any. Tag names are compared without regard to the case
  of the ASCII letters, class names exactly.
\<close>

datatype compound = Compound string "string option"

type_synonym selector = "compound list"

definition lower :: "string \<Rightarrow> string" where
  "lower s = map (\<lambda>c. if 65 \<le> (of_char c :: nat) \<and> (of_char c :: nat) \<le> 90
                       then char_of ((of_char c :: nat) + 32) else c) s"

fun matches_compound :: "compound \<Rightarrow> node \<Rightarrow> bool" where
  "matches_compound (Compound nm cls) n =
     (case name n of
        None \<Rightarrow> False
      | Some nm' \<Rightarrow> lower nm' = lower nm \<and>
          (case cls of None \<Rightarrow> True | Some c \<Rightarrow> c \<in> set (classes n)))"

text \<open>
  \<open>match_ancestors cs anc\<close>: the compound selectors \<open>cs\<close> (the innermost first) are matched,
  in this order, by ancestors taken from \<open>anc\<close> going outwards.
\<close>

fun match_ancestors :: "compound list \<Rightarrow> node list \<Rightarrow> bool" where
  "match_ancestors [] anc = True"
| "match_ancestors (c # cs) [] = False"
| "match_ancestors (c # cs) (a # anc) =
     ((matches_compound c a \<and> match_ancestors cs anc) \<or> match_ancestors (c # cs) anc)"

definition matches :: "selector \<Rightarrow> element \<Rightarrow> bool" where
  "matches sel e =
     (case rev sel of
        [] \<Rightarrow> False
      | c # cs \<Rightarrow> matches_compound c (el e) \<and> match_ancestors cs (parents e))"

text \<open>
  \<open>walk anc ns\<close> lists, in document order, the nodes \<open>ns\<close> (children of one parent, whose
  ancestors are \<open>anc\<close>) and everything below them, each with its place in the tree.
\<close>

function walk :: "node list \<Rightarrow> node list \<Rightarrow> element list" where
  "walk anc [] = []"
| "walk anc (n # right) =
     \<lparr>parents = anc, el = n, next_siblings = right\<rparr>
       # walk (n # anc) (contents n) @ walk anc right"
  by pat_completeness auto
termination
  by (relation "measure (\<lambda>(anc, ns). size_list size ns)")
     (auto simp: contents_def split: node.splits)

definition descendants :: "element \<Rightarrow> element list" where
  "descendants e = walk (el e # parents e) (contents (el e))"

text \<open>\<open>tag.select(sel)\<close> and \<open>tag.select_one(sel)\<close>.\<close>

definition select :: "selector \<Rightarrow> element \<Rightarrow> element list" where
  "select sel e = filter (matches sel) (descendants e)"

definition select_one :: "selector \<Rightarrow> element \<Rightarrow> element option" where
  "select_one sel e = (case select sel e of [] \<Rightarrow> None | d # ds \<Rightarrow> Some d)"

text \<open>\<open>tag.find_next_sibling()\<close>: the next sibling that is a tag.\<close>

definition find_next_sibling :: "element \<Rightarrow> element option" where
  "find_next_sibling e =
     (case dropWhile (\<lambda>n. \<not> is_tag n) (next_siblings e) of
        [] \<Rightarrow> None
      | n # ns \<Rightarrow> Some \<lparr>parents = parents e, el = n, next_siblings = ns\<rparr>)"

section \<open>The extractor\<close>

text \<open>
  The body of the loop of \<open>parse_posts\<close> (lines 72-125), for one item row \<open>row\<close>.

  Lines 74-78: the attribute \<open>id\<close>, read as an integer; \<open>None\<close> when the attribute is
  missing or \<open>int\<close> raises \<open>ValueError\<close> (the only exception \<open>py_int\<close> has).
\<close>

definition row_post_id :: "element \<Rightarrow> int option" where
  "row_post_id row =
     (case get (el row) ''id'' of
        None \<Rightarrow> None
      | Some id_attr \<Rightarrow> (case py_int id_attr of Inl e \<Rightarrow> None | Inr n \<Rightarrow> Some n))"

text \<open>
  Line 81: \<open>row.select_one("span.titleline a") or row.select_one("a.storylink")\<close>.
  A tag is true whatever its contents, so \<open>or\<close> takes the second one only when the first
  is \<open>None\<close>.
\<close>

definition anchor :: "element \<Rightarrow> element option" where
  "anchor row =
     (case select_one [Compound ''span'' (Some ''titleline''), Compound ''a'' None] row of
        Some a \<Rightarrow> Some a
      | None \<Rightarrow> select_one [Compound ''a'' (Some ''storylink'')] row)"

text \<open>Line 82.\<close>

definition row_title :: "element \<Rightarrow> string" where
  "row_title row = (case anchor row of Some a \<Rightarrow> get_text_strip (el a) | None \<Rightarrow> [])"

text \<open>Line 83: \<open>(anchor.get("href") if anchor else "") or ""\<close>.\<close>

definition row_link :: "element \<Rightarrow> string" where
  "row_link row =
     (case anchor row of
        Some a \<Rightarrow> (case get (el a) ''href'' of Some href \<Rightarrow> href | None \<Rightarrow> [])
      | None \<Rightarrow> [])"

text \<open>Lines 84-85.\<close>

definition normalize_url :: "string \<Rightarrow> string" where
  "normalize_url link =
     (if startswith link ''item?id='' then ''https://news.ycombinator.com/'' @ link else link)"

definition row_url :: "element \<Rightarrow> string" where
  "row_url row = normalize_url (row_link row)"

text \<open>
  Lines 88-94: the loop over the following siblings. It stops at the first one named
  \<open>tr\<close> and looks for \<open>td.subtext\<close> inside it; it ends with \<open>None\<close> when no sibling is
  left.
\<close>

function subtext_loop :: "element option \<Rightarrow> element option" where
  "subtext_loop None = None"
| "subtext_loop (Some sib) =
     (if name (el sib) = Some ''tr''
      then select_one [Compound ''td'' (Some ''subtext'')] sib
      else subtext_loop (find_next_sibling sib))"
  by pat_completeness auto
termination
proof (relation "measure (\<lambda>s. case s of None \<Rightarrow> 0 | Some e \<Rightarrow> Suc (length (next_siblings e)))")
  show "wf (measure (\<lambda>s. case s of None \<Rightarrow> 0 | Some e \<Rightarrow> Suc (length (next_siblings e))))"
    by simp
next
  fix sib :: element
  let ?rest = "dropWhile (\<lambda>n. \<not> is_tag n) (next_siblings sib)"
  have "length ?rest \<le> length (next_siblings sib)"
    by (rule length_dropWhile_le)
  then show "(find_next_sibling sib, Some sib)
      \<in> measure (\<lambda>s. case s of None \<Rightarrow> 0 | Some e \<Rightarrow> Suc (length (next_siblings e)))"
    unfolding find_next_sibling_def by (auto split: list.splits)
qed

definition subtext_td :: "element \<Rightarrow> element option" where
  "subtext_td row = subtext_loop (find_next_sibling row)"

text \<open>
  Lines 106-107: the characters of the score text that \<open>isdigit\<close> accepts, joined and
  read by \<open>int\<close>; 0 when there are none.
\<close>

definition score_points :: "string \<Rightarrow> error + int" where
  "score_points text =
     (let digits = filter isdigit text
      in if digits \<noteq> [] then py_int digits else Inr 0)"

text \<open>Lines 96-111: user, points and time_posted, from the subtext cell if there is one.\<close>

definition subtext_fields :: "element option \<Rightarrow> error + (string option \<times> int \<times> string option)" where
  "subtext_fields subtext =
     (case subtext of
        None \<Rightarrow> Inr (None, 0, None)
      | Some td \<Rightarrow>
          (let usr = (case select_one [Compound ''a'' (Some ''hnuser'')] td of
                        Some user_el \<Rightarrow> Some (get_text_strip (el user_el))
                      | None \<Rightarrow> None);
               posted = (case select_one [Compound ''span'' (Some ''age'')] td of
                           Some age_el \<Rightarrow> get (el age_el) ''title''
                         | None \<Rightarrow> None)
           in case (case select_one [Compound ''span'' (Some ''score'')] td of
                      Some score_el \<Rightarrow> score_points (get_text (el score_el))
                    | None \<Rightarrow> Inr 0) of
                Inl e \<Rightarrow> Inl e
              | Inr pts \<Rightarrow> Inr (usr, pts, posted)))"

text \<open>
  The whole body: \<open>Inl\<close> an exception, \<open>Inr None\<close> the \<open>continue\<close> of line 114,
  \<open>Inr (Some p)\<close> the record appended at line 116.
\<close>

definition parse_row :: "element \<Rightarrow> error + post option" where
  "parse_row row =
     (case subtext_fields (subtext_td row) of
        Inl e \<Rightarrow> Inl e
      | Inr (usr, pts, posted) \<Rightarrow>
          (case row_post_id row of
             None \<Rightarrow> Inr None
           | Some i \<Rightarrow>
               if i \<le> 0 \<or> row_title row = [] then Inr None
               else Inr (Some \<lparr>post_id = i, title = row_title row, url = row_url row,
                               user = usr, points = pts, time_posted = posted\<rparr>)))"

text \<open>The loop of line 72 over the item rows, with the list \<open>posts\<close> built so far.\<close>

fun parse_rows :: "element list \<Rightarrow> post list \<Rightarrow> error + post list" where
  "parse_rows [] posts = Inr posts"
| "parse_rows (row # rows) posts =
     (case parse_row row of
        Inl e \<Rightarrow> Inl e
      | Inr None \<Rightarrow> parse_rows rows posts
      | Inr (Some p) \<Rightarrow> parse_rows rows (posts @ [p]))"

text \<open>
  \<open>parse_posts\<close> (lines 68-127). \<open>item_rows\<close> is \<open>soup.select("tr.athing")\<close>, the soup being
  the root of the tree; \<open>BeautifulSoup\<close> is the parser of line 69.
\<close>

definition item_rows :: "node \<Rightarrow> element list" where
  "item_rows soup =
     select [Compound ''tr'' (Some ''athing'')] \<lparr>parents = [], el = soup, next_siblings = []\<rparr>"

definition parse_soup :: "node \<Rightarrow> error + post list" where
  "parse_soup soup = parse_rows (item_rows soup) []"

definition parse_posts :: "(string \<Rightarrow> node) \<Rightarrow> string \<Rightarrow> error + post list" where
  "parse_posts BeautifulSoup html = parse_soup (BeautifulSoup html)"

section \<open>The run\<close>

text \<open>
  What a run reads from outside: the table in \<open>hs.db\<close> (\<open>None\<close> if it does not exist yet)
  and the journal mode of the file, the outcome of the request (the text of the response,
  or the exception of lines 54-61), the contents of \<open>dummy.html\<close> (\<open>None\<close> if the file is
  missing), and the clock at lines 131 and 159.
\<close>

record environment =
  hs_db :: "row list option"
  hs_db_wal :: bool
  response :: "error + string"
  dummy_html :: "string option"
  now_upsert :: string
  now_summary :: string

datatype message =
    FetchFailed error
  | NoPostsParsed
  | ScrapeFailed error
  | Upserted nat string

record run =
  exit_code :: int
  run_conn :: connection
  messages :: "message list"

text \<open>\<open>sqlite3.connect(DB_PATH)\<close> (line 152) and \<open>conn.close()\<close> (line 160).\<close>

definition connect :: "environment \<Rightarrow> connection" where
  "connect env =
     \<lparr>committed = (case hs_db env of None \<Rightarrow> [] | Some t \<Rightarrow> t), pending = None,
      posts_table = (hs_db env \<noteq> None), journal_wal = hs_db_wal env, closed = False\<rparr>"

definition close :: "connection \<Rightarrow> connection" where
  "close c = c\<lparr>pending := None, closed := True\<rparr>"

text \<open>\<open>ensure_db\<close> (lines 34-49).\<close>

definition ensure_db :: "connection \<Rightarrow> (error + unit) \<times> connection" where
  "ensure_db c =
     (if closed c then (Inl ProgrammingError, c)
      else (Inr (), c\<lparr>committed := view c, pending := None,
                      posts_table := True, journal_wal := True\<rparr>))"

text \<open>\<open>get_html\<close> (lines 52-65), with the message it writes.\<close>

definition get_html :: "environment \<Rightarrow> (error + string) \<times> message list" where
  "get_html env =
     (case response env of
        Inr text \<Rightarrow> (Inr text, [])
      | Inl e \<Rightarrow>
          (case dummy_html env of
             Some text \<Rightarrow> (Inr text, [FetchFailed e])
           | None \<Rightarrow> (Inl FileNotFoundError, [FetchFailed e])))"

text \<open>
  \<open>main\<close> (lines 150-164): the value returned, the connection as the run leaves it, and
  the messages written.
\<close>

definition main :: "(string \<Rightarrow> node) \<Rightarrow> environment \<Rightarrow> run" where
  "main BeautifulSoup env =
     (case ensure_db (connect env) of
        (Inl e, c) \<Rightarrow> \<lparr>exit_code = 1, run_conn = c, messages = [ScrapeFailed e]\<rparr>
      | (Inr u, c) \<Rightarrow>
     (case get_html env of
        (Inl e, out) \<Rightarrow> \<lparr>exit_code = 1, run_conn = c, messages = out @ [ScrapeFailed e]\<rparr>
      | (Inr html, out) \<Rightarrow>
     (case parse_posts BeautifulSoup html of
        Inl e \<Rightarrow> \<lparr>exit_code = 1, run_conn = c, messages = out @ [ScrapeFailed e]\<rparr>
      | Inr posts \<Rightarrow>
     (case upsert_posts c (now_upsert env) posts of
        (Inl e, c') \<Rightarrow>
          \<lparr>exit_code = 1, run_conn = c',
           messages = out @ (if posts = [] then [NoPostsParsed] else []) @ [ScrapeFailed e]\<rparr>
      | (Inr u', c') \<Rightarrow>
          \<lparr>exit_code = 0, run_conn = close c',
           messages = out @ (if posts = [] then [NoPostsParsed] else [])
                      @ [Upserted (length posts) (now_summary env)]\<rparr>))))"

section \<open>Notions used in the statements\<close>

text \<open>
  A record is \<open>accepted\<close> when its two integers fit the store. \<open>upsert_step\<close> is the effect
  of one upsert on the table, \<open>write_fails\<close> says that the write of a record raises.
\<close>

definition accepted :: "post \<Rightarrow> bool" where
  "accepted p \<longleftrightarrow> int64 (post_id p) \<and> int64 (points p)"

definition upsert_step :: "string \<Rightarrow> row list \<Rightarrow> post \<Rightarrow> row list" where
  "upsert_step now_iso t p = insert_on_conflict (with_scraped_at p now_iso) t"

definition write_fails :: "post \<Rightarrow> string \<Rightarrow> connection \<Rightarrow> bool" where
  "write_fails p now_iso c = isl (fst (execute p now_iso c))"

text \<open>
  The last value of a list that is not \<open>None\<close>; the \<open>time_posted\<close> that the table holds
  for an id before a batch; the row that a batch leaves for the id \<open>i\<close>, given the records
  \<open>rs\<close> of the batch with this id.
\<close>

definition last_non_null :: "'a option list \<Rightarrow> 'a option" where
  "last_non_null xs =
     (if filter (\<lambda>x. x \<noteq> None) xs = [] then None else last (filter (\<lambda>x. x \<noteq> None) xs))"

definition prior_time :: "int \<Rightarrow> row list \<Rightarrow> string option" where
  "prior_time i t = (case find_row i t of None \<Rightarrow> None | Some old \<Rightarrow> time_posted old)"

definition merged_row :: "string \<Rightarrow> int \<Rightarrow> string option \<Rightarrow> post list \<Rightarrow> row" where
  "merged_row now_iso i prior rs =
     \<lparr>post_id = i, title = title (last rs), url = url (last rs),
      user = user (last rs), points = points (last rs),
      time_posted = coalesce (last_non_null (map time_posted rs)) prior,
      scraped_at = now_iso\<rparr>"

text \<open>
  An item row's identifier attribute is invalid when it is missing, is not the literal of
  an integer, or is the literal of an integer that is not positive. \<open>row_records\<close> are the
  records that an item row adds to the output: one or none.
\<close>

definition id_attr_invalid :: "element \<Rightarrow> bool" where
  "id_attr_invalid row =
     (case get (el row) ''id'' of
        None \<Rightarrow> True
      | Some v \<Rightarrow> (case py_int v of Inl e \<Rightarrow> True | Inr n \<Rightarrow> n \<le> 0))"

definition row_records :: "element \<Rightarrow> post list" where
  "row_records row = (case parse_row row of Inr (Some p) \<Rightarrow> [p] | _ \<Rightarrow> [])"

text \<open>
  The siblings that follow an element, each with its place in the tree, and those of them
  that are \<open>tr\<close> tags.
\<close>

fun located :: "node list \<Rightarrow> node list \<Rightarrow> element list" where
  "located anc [] = []"
| "located anc (n # ns) = \<lparr>parents = anc, el = n, next_siblings = ns\<rparr> # located anc ns"

definition following_rows :: "element \<Rightarrow> element list" where
  "following_rows row =
     filter (\<lambda>s. name (el s) = Some ''tr'') (located (parents row) (next_siblings row))"

text \<open>The number that a string of decimal digits denotes; 0 for the empty string.\<close>

definition decimal_value :: "string \<Rightarrow> nat" where
  "decimal_value ds = foldl (\<lambda>a c. 10 * a + digit_value c) 0 ds"

section \<open>Example data\<close>

definition stored_row :: row where
  "stored_row = \<lparr>post_id = 7, title = ''Old'', url = ''https://a.example/'', user = Some ''bob'',
                  points = 3, time_posted = Some ''2024-01-01T00:00:00'', scraped_at = ''run0''\<rparr>"

definition db_conn :: connection where
  "db_conn = \<lparr>committed = [stored_row], pending = None, posts_table = True,
               journal_wal = True, closed = False\<rparr>"

definition rescraped :: post where
  "rescraped = \<lparr>post_id = 7, title = ''New'', url = ''https://b.example/'', user = None,
                 points = 5, time_posted = None\<rparr>"

definition fresh_post :: post where
  "fresh_post = \<lparr>post_id = 8, title = ''Fresh'', url = [], user = Some ''eve'',
                  points = 0, time_posted = Some ''2024-03-03T00:00:00''\<rparr>"

definition fresh_again :: post where
  "fresh_again = \<lparr>post_id = 8, title = ''Fresher'', url = ''item?id=8'', user = None,
                  points = 9, time_posted = None\<rparr>"

definition oversized :: post where
  "oversized = \<lparr>post_id = 2 ^ 63, title = ''Big'', url = [], user = None,
                 points = 0, time_posted = None\<rparr>"

text \<open>
  Markup of the shape of the front page: an item row, and the row with the subtext cell
  that follows it.
\<close>

definition item_row :: "string \<Rightarrow> string \<Rightarrow> string \<Rightarrow> node" where
  "item_row ident href ttl =
     Tag ''tr'' [(''class'', ''athing submission''), (''id'', ident)]
       [Tag ''td'' [(''class'', ''title'')]
          [Tag ''span'' [(''class'', ''titleline'')]
             [Tag ''a'' [(''href'', href)] [NavigableString ttl]]]]"

definition subtext_row :: "string \<Rightarrow> node" where
  "subtext_row score =
     Tag ''tr'' []
       [Tag ''td'' [(''class'', ''subtext'')]
          [Tag ''span'' [(''class'', ''score'')] [NavigableString score],
           Tag ''a'' [(''class'', ''hnuser'')] [NavigableString ''alice''],
           Tag ''span'' [(''class'', ''age''), (''title'', ''2024-01-01T00:00:00Z'')]
             [NavigableString ''1 hour ago'']]]"

definition front_page :: node where
  "front_page = Tag ''[document]'' []
     [item_row ''123'' ''item?id=123'' '' Example '',
      subtext_row ''456 points'',
      item_row ''abc'' ''https://b.example/'' ''Second'',
      item_row ''0'' ''https://c.example/'' ''Third'',
      item_row ''126'' ''https://d.example/'' '' '']"

definition superscript_page :: node where
  "superscript_page = Tag ''[document]'' []
     [item_row ''123'' ''item?id=123'' ''Example'',
      subtext_row [CHR ''5'', CHR 0xB2, CHR '' '', CHR ''p'', CHR ''t'', CHR ''s'']]"

definition bare_row :: "string \<Rightarrow> element" where
  "bare_row href =
     \<lparr>parents = [], el = item_row ''42'' href ''Story'',
      next_siblings = [NavigableString '' '', Tag ''tr'' [(''class'', ''spacer'')] []]\<rparr>"

definition linkless_row :: element where
  "linkless_row =
     \<lparr>parents = [], el = Tag ''tr'' [(''class'', ''athing''), (''id'', ''43'')] [],
      next_siblings = []\<rparr>"

definition offline :: environment where
  "offline = \<lparr>hs_db = Some [stored_row], hs_db_wal = True, response = Inl RequestException,
              dummy_html = None, now_upsert = ''run1'', now_summary = ''run1''\<rparr>"

definition online :: environment where
  "online = \<lparr>hs_db = Some [stored_row], hs_db_wal = True, response = Inr ''<html>'',
             dummy_html = None, now_upsert = ''run1'', now_summary = ''run1''\<rparr>"

section \<open>The store: lemmas\<close>

lemma post_id_do_update [simp]: "post_id (do_update old new) = post_id old"
  by (simp add: do_update_def)

lemma find_row_insert_on_conflict:
  "find_row i (insert_on_conflict r t) =
     (if i = post_id r
      then Some (case find_row i t of None \<Rightarrow> r | Some old \<Rightarrow> do_update old r)
      else find_row i t)"
  by (induction t) (auto simp: find_row_def)

lemma ids_insert_on_conflict:
  "map post_id (insert_on_conflict r t) =
     (if post_id r \<in> set (map post_id t) then map post_id t else map post_id t @ [post_id r])"
  by (induction t) auto

lemma distinct_insert_on_conflict:
  "distinct (map post_id t) \<Longrightarrow> distinct (map post_id (insert_on_conflict r t))"
  by (simp add: ids_insert_on_conflict)

lemma execute_ok:
  "\<not> closed c \<Longrightarrow> posts_table c \<Longrightarrow> accepted p \<Longrightarrow>
   execute p now c = (Inr (), c\<lparr>pending := Some (upsert_step now (view c) p)\<rparr>)"
  by (simp add: execute_def bind_parameters_def accepted_def upsert_step_def)

lemma execute_all_ok:
  "\<not> closed c \<Longrightarrow> posts_table c \<Longrightarrow> \<forall>p\<in>set ps. accepted p \<Longrightarrow> ps \<noteq> [] \<Longrightarrow>
   execute_all ps now c = (Inr (), c\<lparr>pending := Some (foldl (upsert_step now) (view c) ps)\<rparr>)"
proof (induction ps arbitrary: c)
  case Nil
  then show ?case by simp
next
  case (Cons p ps)
  let ?c = "c\<lparr>pending := Some (upsert_step now (view c) p)\<rparr>"
  have e: "execute p now c = (Inr (), ?c)"
    using Cons.prems by (simp add: execute_ok)
  show ?case
  proof (cases "ps = []")
    case True
    then show ?thesis using e by simp
  next
    case False
    have "execute_all ps now ?c = (Inr (), ?c\<lparr>pending := Some (foldl (upsert_step now) (view ?c) ps)\<rparr>)"
      using Cons.prems False by (intro Cons.IH) auto
    then show ?thesis using e by (simp add: view_def)
  qed
qed

lemma execute_all_fail:
  "closed c \<or> \<not> posts_table c \<or> (\<exists>p\<in>set ps. \<not> accepted p) \<Longrightarrow> ps \<noteq> [] \<Longrightarrow>
   \<exists>e c'. execute_all ps now c = (Inl e, c') \<and> committed c' = committed c \<and> closed c' = closed c"
proof (induction ps arbitrary: c)
  case Nil
  then show ?case by simp
next
  case (Cons p ps)
  show ?case
  proof (cases "closed c \<or> \<not> posts_table c \<or> \<not> accepted p")
    case True
    then show ?thesis
      by (auto simp: execute_def bind_parameters_def accepted_def)
  next
    case False
    let ?c = "c\<lparr>pending := Some (upsert_step now (view c) p)\<rparr>"
    have e: "execute p now c = (Inr (), ?c)"
      using False by (simp add: execute_ok)
    from False Cons.prems have bad: "\<exists>q\<in>set ps. \<not> accepted q" and ne: "ps \<noteq> []" by auto
    have "\<exists>e c'. execute_all ps now ?c = (Inl e, c') \<and> committed c' = committed ?c \<and> closed c' = closed ?c"
      using bad ne by (intro Cons.IH) auto
    then show ?thesis using e by auto
  qed
qed

lemma last_non_null_Nil [simp]: "last_non_null [] = None"
  by (simp add: last_non_null_def)

lemma last_non_null_snoc: "last_non_null (xs @ [x]) = coalesce x (last_non_null xs)"
  by (cases x) (auto simp: last_non_null_def coalesce_def)

lemma coalesce_assoc: "coalesce a (coalesce b c) = coalesce (coalesce a b) c"
  by (simp add: coalesce_def split: option.splits)

lemma find_row_SomeD: "find_row i t = Some r \<Longrightarrow> post_id r = i"
  by (induction t) (auto simp: find_row_def split: if_splits)

lemma find_row_foldl:
  "find_row i (foldl (upsert_step now) t ps) =
     (if filter (\<lambda>p. post_id p = i) ps = [] then find_row i t
      else Some (merged_row now i (prior_time i t) (filter (\<lambda>p. post_id p = i) ps)))"
proof (induction ps rule: rev_induct)
  case Nil
  then show ?case by simp
next
  case (snoc p ps)
  let ?rs = "filter (\<lambda>p. post_id p = i) ps"
  show ?case
  proof (cases "post_id p = i")
    case False
    then show ?thesis
      using snoc.IH by (simp add: upsert_step_def find_row_insert_on_conflict with_scraped_at_def)
  next
    case True
    show ?thesis
    proof (cases "?rs = []")
      case True
      with \<open>post_id p = i\<close> snoc.IH show ?thesis
        by (auto simp: upsert_step_def find_row_insert_on_conflict with_scraped_at_def
            merged_row_def prior_time_def last_non_null_def coalesce_def do_update_def
            split: option.splits dest: find_row_SomeD)
    next
      case False
      with \<open>post_id p = i\<close> snoc.IH show ?thesis
        by (simp add: upsert_step_def find_row_insert_on_conflict with_scraped_at_def
            merged_row_def last_non_null_snoc coalesce_assoc do_update_def)
    qed
  qed
qed

lemma upsert_posts_ok:
  assumes "\<not> closed c" "posts = [] \<or> posts_table c" "\<forall>p\<in>set posts. accepted p"
  shows "upsert_posts c now posts =
    (Inr (), c\<lparr>committed := foldl (upsert_step now) (view c) posts, pending := None\<rparr>)"
proof (cases "posts = []")
  case True
  then show ?thesis using assms by (simp add: upsert_posts_def commit_def)
next
  case False
  then have "execute_all posts now c = (Inr (), c\<lparr>pending := Some (foldl (upsert_step now) (view c) posts)\<rparr>)"
    using assms by (intro execute_all_ok) auto
  then show ?thesis using assms by (simp add: upsert_posts_def commit_def view_def)
qed

lemma upsert_posts_fail:
  assumes "posts \<noteq> []" "closed c \<or> \<not> posts_table c \<or> (\<exists>p\<in>set posts. \<not> accepted p)"
  shows "\<exists>e c'. upsert_posts c now posts = (Inl e, c') \<and> committed c' = committed c
           \<and> closed c' = closed c \<and> (\<not> closed c \<longrightarrow> pending c' = None)"
proof -
  obtain e c1 where 1: "execute_all posts now c = (Inl e, c1)" "committed c1 = committed c" "closed c1 = closed c"
    using execute_all_fail[OF assms(2) assms(1)] by blast
  then show ?thesis
    by (auto simp: upsert_posts_def rollback_def)
qed

lemma write_fails_iff: "write_fails p now c \<longleftrightarrow> closed c \<or> \<not> posts_table c \<or> \<not> accepted p"
  by (simp add: write_fails_def execute_def bind_parameters_def accepted_def)

lemma count_id_distinct:
  "distinct (map post_id t) \<Longrightarrow>
   length (filter (\<lambda>r. post_id r = i) t) = (if i \<in> set (map post_id t) then 1 else 0)"
  by (induction t) auto

lemma id_in_insert_on_conflict: "post_id r \<in> set (map post_id (insert_on_conflict r t))"
  by (simp add: ids_insert_on_conflict)

lemma length_insert_on_conflict:
  "length (insert_on_conflict r t) = (if post_id r \<in> set (map post_id t) then length t else Suc (length t))"
  by (induction t) auto

lemma db_conn_simps [simp]:
  "committed db_conn = [stored_row]" "pending db_conn = None" "posts_table db_conn"
  "\<not> closed db_conn" "view db_conn = [stored_row]"
  by (simp_all add: db_conn_def view_def)

lemma accepted_examples [simp]:
  "accepted rescraped" "accepted fresh_post" "accepted fresh_again" "\<not> accepted oversized"
  by (simp_all add: accepted_def int64_def rescraped_def fresh_post_def fresh_again_def
      oversized_def)

lemma stored_row_fields [simp]:
  "post_id stored_row = 7" "time_posted stored_row = Some ''2024-01-01T00:00:00''"
  by (simp_all add: stored_row_def)

lemma rescraped_fields [simp]:
  "post_id rescraped = 7" "title rescraped = ''New''" "url rescraped = ''https://b.example/''"
  "user rescraped = None" "points rescraped = 5" "time_posted rescraped = None"
  by (simp_all add: rescraped_def)

lemma fresh_post_fields [simp]:
  "post_id fresh_post = 8" "title fresh_post = ''Fresh''" "url fresh_post = []"
  "user fresh_post = Some ''eve''" "points fresh_post = 0"
  "time_posted fresh_post = Some ''2024-03-03T00:00:00''"
  by (simp_all add: fresh_post_def)

lemma fresh_again_fields [simp]:
  "post_id fresh_again = 8" "title fresh_again = ''Fresher''" "url fresh_again = ''item?id=8''"
  "user fresh_again = None" "points fresh_again = 9" "time_posted fresh_again = None"
  by (simp_all add: fresh_again_def)

lemma find_row_distinct:
  "distinct (map post_id t) \<Longrightarrow> x \<in> set t \<Longrightarrow> find_row (post_id x) t = Some x"
  by (induction t) (auto simp: find_row_def)

lemma insert_on_conflict_existing:
  "distinct (map post_id t) \<Longrightarrow> post_id r \<in> set (map post_id t) \<Longrightarrow>
   insert_on_conflict r t = map (\<lambda>x. if post_id x = post_id r then do_update x r else x) t"
proof (induction t)
  case Nil
  then show ?case by simp
next
  case (Cons x t)
  show ?case
  proof (cases "post_id x = post_id r")
    case True
    with Cons.prems have "post_id r \<notin> set (map post_id t)" by simp
    then have "\<forall>y\<in>set t. post_id y \<noteq> post_id r"
      unfolding set_map by (metis image_eqI)
    then have "map (\<lambda>x. if post_id x = post_id r then do_update x r else x) t = t"
      by (simp add: map_idI)
    with True show ?thesis by simp
  next
    case False
    with Cons show ?thesis by auto
  qed
qed

section \<open>The store: claims\<close>

text \<open>
  Claim C1. When the id of the record is already in the table, one upsert (the statement
  of line 147, and likewise a batch of this one record) leaves for this id the row whose
  \<open>title\<close>, \<open>url\<close>, \<open>user\<close> and \<open>points\<close> are those of the record and whose \<open>scraped_at\<close> is
  the timestamp of the run; its \<open>time_posted\<close> is the record's when that is not \<open>None\<close>, and
  the stored one otherwise.
\<close>

theorem upsert_existing_id:
  assumes "find_row (post_id p) (view conn) = Some old"
    and "\<not> closed conn" and "posts_table conn" and "accepted p"
  shows "(\<exists>c'. execute p now_iso conn = (Inr (), c') \<and>
            find_row (post_id p) (view c') =
              Some \<lparr>post_id = post_id p, title = title p, url = url p, user = user p,
                    points = points p,
                    time_posted = (case time_posted p of Some v \<Rightarrow> Some v | None \<Rightarrow> time_posted old),
                    scraped_at = now_iso\<rparr>)
       \<and> (\<exists>c'. upsert_posts conn now_iso [p] = (Inr (), c') \<and>
            find_row (post_id p) (committed c') =
              Some \<lparr>post_id = post_id p, title = title p, url = url p, user = user p,
                    points = points p,
                    time_posted = (case time_posted p of Some v \<Rightarrow> Some v | None \<Rightarrow> time_posted old),
                    scraped_at = now_iso\<rparr>)"
proof -
  have id_old: "post_id old = post_id p"
    using assms(1) by (rule find_row_SomeD)
  have merged: "find_row (post_id p) (upsert_step now_iso (view conn) p) =
      Some \<lparr>post_id = post_id p, title = title p, url = url p, user = user p,
            points = points p,
            time_posted = (case time_posted p of Some v \<Rightarrow> Some v | None \<Rightarrow> time_posted old),
            scraped_at = now_iso\<rparr>"
    using assms(1) id_old
    by (simp add: upsert_step_def find_row_insert_on_conflict with_scraped_at_def
        do_update_def coalesce_def)
  have "execute p now_iso conn = (Inr (), conn\<lparr>pending := Some (upsert_step now_iso (view conn) p)\<rparr>)"
    using assms by (simp add: execute_ok)
  moreover have "upsert_posts conn now_iso [p] =
      (Inr (), conn\<lparr>committed := foldl (upsert_step now_iso) (view conn) [p], pending := None\<rparr>)"
    using assms by (intro upsert_posts_ok) auto
  ultimately show ?thesis
    using merged by (simp add: view_def)
qed

theorem upsert_existing_id_witness:
  "find_row (post_id rescraped) (view db_conn) = Some stored_row \<and> \<not> closed db_conn \<and>
   posts_table db_conn \<and> accepted rescraped \<and>
   (\<exists>c'. upsert_posts db_conn ''run1'' [rescraped] = (Inr (), c') \<and>
      find_row 7 (committed c') =
        Some \<lparr>post_id = 7, title = ''New'', url = ''https://b.example/'', user = None,
              points = 5, time_posted = Some ''2024-01-01T00:00:00'', scraped_at = ''run1''\<rparr>)"
proof -
  have h: "find_row (post_id rescraped) (view db_conn) = Some stored_row"
    by (simp add: find_row_def)
  show ?thesis
    using h upsert_existing_id[OF h, of "''run1''"]
    by simp
qed

text \<open>
  Claim C3. The batch is one transaction. If the write of any record of the batch fails,
  \<open>upsert_posts\<close> raises, the committed table is the one from before the batch and no
  transaction stays open. If no write fails (on an open connection), \<open>upsert_posts\<close> returns
  and the committed table is the result of all the upserts, applied in order.
\<close>

theorem upsert_posts_atomic:
  "(posts \<noteq> [] \<and> (\<exists>p\<in>set posts. write_fails p now_iso conn) \<longrightarrow>
      (\<exists>e c'. upsert_posts conn now_iso posts = (Inl e, c') \<and>
               committed c' = committed conn \<and> (\<not> closed conn \<longrightarrow> pending c' = None)))
   \<and> (\<not> closed conn \<and> (\<forall>p\<in>set posts. \<not> write_fails p now_iso conn) \<longrightarrow>
      upsert_posts conn now_iso posts =
        (Inr (), conn\<lparr>committed := foldl (upsert_step now_iso) (view conn) posts,
                      pending := None\<rparr>))"
proof (intro conjI impI)
  assume a: "posts \<noteq> [] \<and> (\<exists>p\<in>set posts. write_fails p now_iso conn)"
  then have "closed conn \<or> \<not> posts_table conn \<or> (\<exists>p\<in>set posts. \<not> accepted p)"
    by (auto simp: write_fails_iff)
  with a show "\<exists>e c'. upsert_posts conn now_iso posts = (Inl e, c') \<and>
               committed c' = committed conn \<and> (\<not> closed conn \<longrightarrow> pending c' = None)"
    using upsert_posts_fail[of posts conn now_iso] by blast
next
  assume a: "\<not> closed conn \<and> (\<forall>p\<in>set posts. \<not> write_fails p now_iso conn)"
  then have "posts = [] \<or> posts_table conn" "\<forall>p\<in>set posts. accepted p"
    by (cases posts; auto simp: write_fails_iff)+
  with a show "upsert_posts conn now_iso posts =
        (Inr (), conn\<lparr>committed := foldl (upsert_step now_iso) (view conn) posts,
                      pending := None\<rparr>)"
    by (intro upsert_posts_ok) auto
qed

theorem upsert_posts_atomic_witness:
  "(\<exists>e c'. upsert_posts db_conn ''run1'' [fresh_post, oversized] = (Inl e, c') \<and>
      committed c' = [stored_row] \<and> pending c' = None)
   \<and> upsert_posts db_conn ''run1'' [fresh_post, rescraped] =
       (Inr (), db_conn\<lparr>committed :=
          [\<lparr>post_id = 7, title = ''New'', url = ''https://b.example/'', user = None,
            points = 5, time_posted = Some ''2024-01-01T00:00:00'', scraped_at = ''run1''\<rparr>,
           \<lparr>post_id = 8, title = ''Fresh'', url = '''', user = Some ''eve'',
            points = 0, time_posted = Some ''2024-03-03T00:00:00'', scraped_at = ''run1''\<rparr>],
          pending := None\<rparr>)"
proof -
  have fails: "write_fails oversized ''run1'' db_conn"
    and ok: "\<not> write_fails fresh_post ''run1'' db_conn" "\<not> write_fails rescraped ''run1'' db_conn"
    by (simp_all add: write_fails_iff)
  have t: "foldl (upsert_step ''run1'') [stored_row] [fresh_post, rescraped] =
          [\<lparr>post_id = 7, title = ''New'', url = ''https://b.example/'', user = None,
            points = 5, time_posted = Some ''2024-01-01T00:00:00'', scraped_at = ''run1''\<rparr>,
           \<lparr>post_id = 8, title = ''Fresh'', url = '''', user = Some ''eve'',
            points = 0, time_posted = Some ''2024-03-03T00:00:00'', scraped_at = ''run1''\<rparr>]"
    by (simp add: upsert_step_def with_scraped_at_def stored_row_def do_update_def coalesce_def)
  show ?thesis
    using fails ok t
      upsert_posts_atomic[of "[fresh_post, oversized]" "''run1''" db_conn]
      upsert_posts_atomic[of "[fresh_post, rescraped]" "''run1''" db_conn]
    by simp
qed

text \<open>
  Claim C4. On a table that satisfies its primary key, upserting the same record in two
  runs succeeds both times and leaves exactly one row with its id. The second upsert adds
  no row: it updates the row in place. After it the row has the fields of the record and
  the timestamp of the second run, and the table is the one after the first upsert with
  nothing but the \<open>scraped_at\<close> of this row changed.
\<close>

theorem upsert_twice_one_row:
  assumes "distinct (map post_id (view conn))"
    and "\<not> closed conn" and "posts_table conn" and "accepted p"
  shows "\<exists>c1 c2. upsert_posts conn now1 [p] = (Inr (), c1) \<and>
                 upsert_posts c1 now2 [p] = (Inr (), c2) \<and>
                 length (filter (\<lambda>r. post_id r = post_id p) (committed c1)) = 1 \<and>
                 length (filter (\<lambda>r. post_id r = post_id p) (committed c2)) = 1 \<and>
                 length (committed c2) = length (committed c1) \<and>
                 find_row (post_id p) (committed c1) =
                   Some \<lparr>post_id = post_id p, title = title p, url = url p, user = user p,
                         points = points p,
                         time_posted = (case time_posted p of
                                          Some v \<Rightarrow> Some v
                                        | None \<Rightarrow> prior_time (post_id p) (view conn)),
                         scraped_at = now1\<rparr> \<and>
                 find_row (post_id p) (committed c2) =
                   Some \<lparr>post_id = post_id p, title = title p, url = url p, user = user p,
                         points = points p,
                         time_posted = (case time_posted p of
                                          Some v \<Rightarrow> Some v
                                        | None \<Rightarrow> prior_time (post_id p) (view conn)),
                         scraped_at = now2\<rparr> \<and>
                 committed c2 =
                   map (\<lambda>r. if post_id r = post_id p then r\<lparr>scraped_at := now2\<rparr> else r)
                     (committed c1)"
proof -
  let ?t1 = "upsert_step now1 (view conn) p"
  let ?c1 = "conn\<lparr>committed := ?t1, pending := None\<rparr>"
  let ?t2 = "upsert_step now2 ?t1 p"
  let ?c2 = "?c1\<lparr>committed := ?t2, pending := None\<rparr>"
  let ?tp = "case time_posted p of Some v \<Rightarrow> Some v
             | None \<Rightarrow> prior_time (post_id p) (view conn)"
  let ?r1 = "\<lparr>post_id = post_id p, title = title p, url = url p, user = user p,
              points = points p, time_posted = ?tp, scraped_at = now1\<rparr>"
  let ?r2 = "\<lparr>post_id = post_id p, title = title p, url = url p, user = user p,
              points = points p, time_posted = ?tp, scraped_at = now2\<rparr>"
  have 1: "upsert_posts conn now1 [p] = (Inr (), ?c1)"
    using assms upsert_posts_ok[of conn "[p]" now1] by simp
  have 2: "upsert_posts ?c1 now2 [p] = (Inr (), ?c2)"
    using assms upsert_posts_ok[of ?c1 "[p]" now2] by (simp add: view_def)
  have d1: "distinct (map post_id ?t1)"
    using assms(1) by (simp add: upsert_step_def distinct_insert_on_conflict)
  have in1: "post_id p \<in> set (map post_id ?t1)"
    using id_in_insert_on_conflict[of "with_scraped_at p now1" "view conn"]
    by (simp add: upsert_step_def with_scraped_at_def)
  have ids2: "map post_id ?t2 = map post_id ?t1"
    using in1 by (simp add: upsert_step_def[of now2] ids_insert_on_conflict with_scraped_at_def)
  have n1: "length (filter (\<lambda>r. post_id r = post_id p) ?t1) = 1"
    using count_id_distinct[OF d1, of "post_id p"] in1 by simp
  have d2: "distinct (map post_id ?t2)"
    using d1 ids2 by simp
  have n2: "length (filter (\<lambda>r. post_id r = post_id p) ?t2) = 1"
    using count_id_distinct[OF d2, of "post_id p"] in1 ids2 by simp
  have len: "length ?t2 = length ?t1"
    using in1 by (simp add: upsert_step_def[of now2] length_insert_on_conflict with_scraped_at_def)
  have f1: "find_row (post_id p) ?t1 = Some ?r1"
    by (auto simp: upsert_step_def find_row_insert_on_conflict with_scraped_at_def
        prior_time_def do_update_def coalesce_def split: option.splits dest: find_row_SomeD)
  have upd: "do_update ?r1 (with_scraped_at p now2) = ?r2"
    by (simp add: do_update_def with_scraped_at_def coalesce_def split: option.splits)
  have f2: "find_row (post_id p) ?t2 = Some ?r2"
    using f1 upd by (simp add: upsert_step_def[of now2] find_row_insert_on_conflict
        with_scraped_at_def)
  have only: "x = ?r1" if "x \<in> set ?t1" "post_id x = post_id p" for x
    using find_row_distinct[OF d1 that(1)] that(2) f1 by simp
  have "?t2 = map (\<lambda>x. if post_id x = post_id p then do_update x (with_scraped_at p now2) else x) ?t1"
    using insert_on_conflict_existing[OF d1, of "with_scraped_at p now2"] in1
    by (simp add: upsert_step_def[of now2] with_scraped_at_def)
  also have "\<dots> = map (\<lambda>r. if post_id r = post_id p then r\<lparr>scraped_at := now2\<rparr> else r) ?t1"
  proof (rule map_cong[OF refl])
    fix x assume x: "x \<in> set ?t1"
    show "(if post_id x = post_id p then do_update x (with_scraped_at p now2) else x) =
          (if post_id x = post_id p then x\<lparr>scraped_at := now2\<rparr> else x)"
    proof (cases "post_id x = post_id p")
      case True
      from only[OF x True] upd True show ?thesis by simp
    next
      case False
      then show ?thesis by simp
    qed
  qed
  finally have m: "?t2 = map (\<lambda>r. if post_id r = post_id p then r\<lparr>scraped_at := now2\<rparr> else r) ?t1" .
  have "upsert_posts conn now1 [p] = (Inr (), ?c1) \<and>
        upsert_posts ?c1 now2 [p] = (Inr (), ?c2) \<and>
        length (filter (\<lambda>r. post_id r = post_id p) (committed ?c1)) = 1 \<and>
        length (filter (\<lambda>r. post_id r = post_id p) (committed ?c2)) = 1 \<and>
        length (committed ?c2) = length (committed ?c1) \<and>
        find_row (post_id p) (committed ?c1) = Some ?r1 \<and>
        find_row (post_id p) (committed ?c2) = Some ?r2 \<and>
        committed ?c2 =
          map (\<lambda>r. if post_id r = post_id p then r\<lparr>scraped_at := now2\<rparr> else r) (committed ?c1)"
    using 1 2 n1 n2 len f1 f2 m by simp
  then show ?thesis by blast
qed

theorem upsert_twice_one_row_witness:
  "distinct (map post_id (view db_conn)) \<and> \<not> closed db_conn \<and> posts_table db_conn \<and>
   accepted fresh_post \<and>
   (\<exists>c1 c2. upsert_posts db_conn ''run1'' [fresh_post] = (Inr (), c1) \<and>
            upsert_posts c1 ''run2'' [fresh_post] = (Inr (), c2) \<and>
            length (filter (\<lambda>r. post_id r = 8) (committed c1)) = 1 \<and>
            length (filter (\<lambda>r. post_id r = 8) (committed c2)) = 1 \<and>
            length (committed c2) = length (committed c1) \<and>
            find_row 8 (committed c1) =
              Some \<lparr>post_id = 8, title = ''Fresh'', url = [], user = Some ''eve'', points = 0,
                    time_posted = Some ''2024-03-03T00:00:00'', scraped_at = ''run1''\<rparr> \<and>
            find_row 8 (committed c2) =
              Some \<lparr>post_id = 8, title = ''Fresh'', url = [], user = Some ''eve'', points = 0,
                    time_posted = Some ''2024-03-03T00:00:00'', scraped_at = ''run2''\<rparr>)"
proof -
  have h: "distinct (map post_id (view db_conn))" by simp
  from upsert_twice_one_row[OF h, of fresh_post "''run1''" "''run2''"]
  obtain c1 c2 where
    "upsert_posts db_conn ''run1'' [fresh_post] = (Inr (), c1)"
    "upsert_posts c1 ''run2'' [fresh_post] = (Inr (), c2)"
    "length (filter (\<lambda>r. post_id r = 8) (committed c1)) = 1"
    "length (filter (\<lambda>r. post_id r = 8) (committed c2)) = 1"
    "length (committed c2) = length (committed c1)"
    "find_row 8 (committed c1) =
              Some \<lparr>post_id = 8, title = ''Fresh'', url = [], user = Some ''eve'', points = 0,
                    time_posted = Some ''2024-03-03T00:00:00'', scraped_at = ''run1''\<rparr>"
    "find_row 8 (committed c2) =
              Some \<lparr>post_id = 8, title = ''Fresh'', url = [], user = Some ''eve'', points = 0,
                    time_posted = Some ''2024-03-03T00:00:00'', scraped_at = ''run2''\<rparr>"
    by auto
  then show ?thesis using h by auto
qed

text \<open>
  Claim C9. After a batch, the row of every record of the batch carries the one timestamp
  \<open>now_iso\<close> that \<open>upsert_posts\<close> read before the loop.
\<close>

theorem scraped_at_shared:
  assumes "\<not> closed conn" and "posts_table conn" and "\<forall>p\<in>set posts. accepted p"
  shows "\<exists>c'. upsert_posts conn now_iso posts = (Inr (), c') \<and>
              (\<forall>p\<in>set posts. \<exists>r. find_row (post_id p) (committed c') = Some r \<and>
                                    scraped_at r = now_iso)"
proof -
  let ?c = "conn\<lparr>committed := foldl (upsert_step now_iso) (view conn) posts, pending := None\<rparr>"
  have ok: "upsert_posts conn now_iso posts = (Inr (), ?c)"
    using assms by (intro upsert_posts_ok) auto
  have "\<exists>r. find_row (post_id p) (committed ?c) = Some r \<and> scraped_at r = now_iso"
    if "p \<in> set posts" for p
  proof -
    from that have "filter (\<lambda>q. post_id q = post_id p) posts \<noteq> []"
      by (auto simp: filter_empty_conv)
    then show ?thesis
      by (simp add: find_row_foldl merged_row_def)
  qed
  with ok show ?thesis by blast
qed

theorem scraped_at_shared_witness:
  "\<not> closed db_conn \<and> posts_table db_conn \<and>
   accepted fresh_post \<and> accepted rescraped \<and>
   (\<exists>c'. upsert_posts db_conn ''run1'' [fresh_post, rescraped] = (Inr (), c') \<and>
      (\<exists>r. find_row 8 (committed c') = Some r \<and> scraped_at r = ''run1'') \<and>
      (\<exists>r. find_row 7 (committed c') = Some r \<and> scraped_at r = ''run1''))"
proof -
  have h: "\<forall>p\<in>set [fresh_post, rescraped]. accepted p" by simp
  show ?thesis
    using h scraped_at_shared[of db_conn "[fresh_post, rescraped]" "''run1''"] by simp
qed

text \<open>
  Claim C10. The records are applied one at a time, in the order of the sequence. When the
  records \<open>rs\<close> of the batch with the id \<open>i\<close> are two or more (or just one), the row that
  the batch leaves for \<open>i\<close> has the \<open>title\<close>, \<open>url\<close>, \<open>user\<close> and \<open>points\<close> of the last of
  them; its \<open>time_posted\<close> is the last one among them that is not \<open>None\<close>, and the value
  stored before the batch when all are \<open>None\<close>.
\<close>

theorem duplicate_ids_last_wins:
  assumes "\<not> closed conn" and "posts_table conn" and "\<forall>p\<in>set posts. accepted p"
    and "rs = filter (\<lambda>p. post_id p = i) posts" and "rs \<noteq> []"
  shows "\<exists>c'. upsert_posts conn now_iso posts = (Inr (), c') \<and>
              committed c' = foldl (upsert_step now_iso) (view conn) posts \<and>
              find_row i (committed c') =
                Some \<lparr>post_id = i, title = title (last rs), url = url (last rs),
                      user = user (last rs), points = points (last rs),
                      time_posted = (case last_non_null (map time_posted rs) of
                                       Some v \<Rightarrow> Some v
                                     | None \<Rightarrow> prior_time i (view conn)),
                      scraped_at = now_iso\<rparr>"
proof -
  let ?c = "conn\<lparr>committed := foldl (upsert_step now_iso) (view conn) posts, pending := None\<rparr>"
  have ok: "upsert_posts conn now_iso posts = (Inr (), ?c)"
    using assms by (intro upsert_posts_ok) auto
  have "find_row i (committed ?c) = Some (merged_row now_iso i (prior_time i (view conn)) rs)"
    using assms(4,5) by (simp add: find_row_foldl)
  then show ?thesis
    using ok by (simp add: merged_row_def coalesce_def)
qed

theorem duplicate_ids_last_wins_witness:
  "\<not> closed db_conn \<and> posts_table db_conn \<and>
   accepted fresh_post \<and> accepted rescraped \<and> accepted fresh_again \<and>
   filter (\<lambda>p. post_id p = 8) [fresh_post, rescraped, fresh_again] = [fresh_post, fresh_again] \<and>
   (\<exists>c'. upsert_posts db_conn ''run1'' [fresh_post, rescraped, fresh_again] = (Inr (), c') \<and>
      find_row 8 (committed c') =
        Some \<lparr>post_id = 8, title = ''Fresher'', url = ''item?id=8'', user = None, points = 9,
              time_posted = Some ''2024-03-03T00:00:00'', scraped_at = ''run1''\<rparr>)"
proof -
  have a: "\<forall>p\<in>set [fresh_post, rescraped, fresh_again]. accepted p"
    by simp
  have f: "[fresh_post, fresh_again] = filter (\<lambda>p. post_id p = 8) [fresh_post, rescraped, fresh_again]"
    by simp
  have l: "last_non_null (map time_posted [fresh_post, fresh_again]) = Some ''2024-03-03T00:00:00''"
    by (simp add: last_non_null_def)
  show ?thesis
    using a f l
      duplicate_ids_last_wins[of db_conn "[fresh_post, rescraped, fresh_again]"
        "[fresh_post, fresh_again]" 8 "''run1''"]
    by auto
qed

section \<open>The extractor: lemmas\<close>

lemma row_post_id_invalid: "id_attr_invalid row \<longleftrightarrow> (case row_post_id row of None \<Rightarrow> True | Some i \<Rightarrow> i \<le> 0)"
  by (simp add: id_attr_invalid_def row_post_id_def split: option.splits sum.splits)

lemma parse_row_SomeD:
  "parse_row row = Inr (Some p) \<Longrightarrow>
     row_post_id row = Some (post_id p) \<and> 0 < post_id p \<and> title p = row_title row \<and>
     title p \<noteq> [] \<and> url p = row_url row"
  by (auto simp: parse_row_def split: sum.splits option.splits if_splits)

lemma parse_rows_records:
  "parse_rows rows acc = Inr posts \<Longrightarrow> posts = acc @ concat (map row_records rows)"
proof (induction rows arbitrary: acc)
  case Nil
  then show ?case by simp
next
  case (Cons row rows)
  show ?case
  proof (cases "parse_row row")
    case (Inl e)
    with Cons.prems show ?thesis by simp
  next
    case (Inr r)
    show ?thesis
    proof (cases r)
      case None
      with Inr Cons.prems have "parse_rows rows acc = Inr posts" by simp
      from Cons.IH[OF this] Inr None show ?thesis by (simp add: row_records_def)
    next
      case (Some p)
      with Inr Cons.prems have "parse_rows rows (acc @ [p]) = Inr posts" by simp
      from Cons.IH[OF this] Inr Some show ?thesis by (simp add: row_records_def)
    qed
  qed
qed

lemma row_records_valid:
  assumes "p \<in> set (row_records row)"
  shows "0 < post_id p \<and> title p \<noteq> []"
proof -
  from assms have "parse_row row = Inr (Some p)"
    by (auto simp: row_records_def split: sum.splits option.splits)
  from parse_row_SomeD[OF this] show ?thesis by auto
qed

lemma row_records_invalid: "id_attr_invalid row \<or> row_title row = [] \<Longrightarrow> row_records row = []"
  by (auto simp: row_records_def row_post_id_invalid split: sum.splits option.splits
      dest!: parse_row_SomeD)

lemma startswith_append: "startswith (p @ s) p"
  by (induction p) auto

lemma startswith_iff: "startswith s p \<longleftrightarrow> (\<exists>r. s = p @ r)"
  by (induction s p rule: startswith.induct) auto

lemma located_suffix: "set (located anc rest) \<subseteq> set (located anc (pre @ rest))"
  by (induction pre) auto

lemma find_next_sibling_located:
  assumes "find_next_sibling e = Some e'"
  shows "set (e' # located (parents e') (next_siblings e')) \<subseteq> set (located (parents e) (next_siblings e))"
proof -
  let ?P = "\<lambda>n. \<not> is_tag n"
  from assms obtain n ns where d: "dropWhile ?P (next_siblings e) = n # ns"
    and e': "e' = \<lparr>parents = parents e, el = n, next_siblings = ns\<rparr>"
    by (auto simp: find_next_sibling_def split: list.splits)
  have "next_siblings e = takeWhile ?P (next_siblings e) @ n # ns"
    using d takeWhile_dropWhile_id[of ?P "next_siblings e"] by simp
  then have "set (located (parents e) (n # ns)) \<subseteq> set (located (parents e) (next_siblings e))"
    using located_suffix[of "parents e" "n # ns" "takeWhile ?P (next_siblings e)"] by simp
  then show ?thesis using e' by simp
qed

lemma subtext_loop_None:
  "(case sib of None \<Rightarrow> True
    | Some e \<Rightarrow> \<forall>s\<in>set (e # located (parents e) (next_siblings e)).
        name (el s) = Some ''tr'' \<longrightarrow> select_one [Compound ''td'' (Some ''subtext'')] s = None)
   \<Longrightarrow> subtext_loop sib = None"
proof (induction sib rule: subtext_loop.induct)
  case 1
  then show ?case by simp
next
  case (2 sib)
  show ?case
  proof (cases "name (el sib) = Some ''tr''")
    case True
    then show ?thesis using "2.prems" by simp
  next
    case False
    have "subtext_loop (find_next_sibling sib) = None"
    proof (rule "2.IH"[OF False])
      show "case find_next_sibling sib of None \<Rightarrow> True
        | Some e \<Rightarrow> \<forall>s\<in>set (e # located (parents e) (next_siblings e)).
            name (el s) = Some ''tr'' \<longrightarrow> select_one [Compound ''td'' (Some ''subtext'')] s = None"
      proof (cases "find_next_sibling sib")
        case None
        then show ?thesis by simp
      next
        case (Some e')
        then show ?thesis
          using find_next_sibling_located[OF Some] "2.prems" by auto
      qed
    qed
    with False show ?thesis by simp
  qed
qed

lemma subtext_td_None:
  assumes "\<forall>s\<in>set (following_rows row). select_one [Compound ''td'' (Some ''subtext'')] s = None"
  shows "subtext_td row = None"
  unfolding subtext_td_def
proof (rule subtext_loop_None)
  show "case find_next_sibling row of None \<Rightarrow> True
    | Some e \<Rightarrow> \<forall>s\<in>set (e # located (parents e) (next_siblings e)).
        name (el s) = Some ''tr'' \<longrightarrow> select_one [Compound ''td'' (Some ''subtext'')] s = None"
  proof (cases "find_next_sibling row")
    case None
    then show ?thesis by simp
  next
    case (Some e')
    then show ?thesis
      using find_next_sibling_located[OF Some] assms by (auto simp: following_rows_def)
  qed
qed

lemma int_digits_decimal:
  "\<forall>c\<in>set ds. isdecimal c \<Longrightarrow> int_digits acc ds = Some (foldl (\<lambda>a c. 10 * a + digit_value c) acc ds)"
  by (induction acc ds rule: int_digits.induct) auto

lemma isdecimal_not_special: "isdecimal c \<Longrightarrow> \<not> int_space c \<and> c \<noteq> CHR ''-'' \<and> c \<noteq> CHR ''+''"
  by (auto simp: isdecimal_def int_space_def Let_def)

lemma strip_unchanged:
  assumes "xs \<noteq> []" "\<not> P (hd xs)" "\<not> P (last xs)"
  shows "rev (dropWhile P (rev (dropWhile P xs))) = xs"
proof -
  have 1: "dropWhile P xs = xs"
    using assms(2) by (simp add: dropWhile_eq_self_iff)
  have "\<not> P (hd (rev xs))"
    using assms(1,3) by (simp add: hd_rev)
  then have "dropWhile P (rev xs) = rev xs"
    by (simp add: dropWhile_eq_self_iff)
  with 1 show ?thesis by simp
qed

lemma py_int_decimal:
  assumes "ds \<noteq> []" "\<forall>c\<in>set ds. isdecimal c"
  shows "py_int ds = Inr (int (decimal_value ds))"
proof -
  obtain c cs where ds: "ds = c # cs" using assms(1) by (cases ds) auto
  have "\<not> int_space (hd ds)" "\<not> int_space (last ds)" "hd ds \<noteq> CHR ''-''" "hd ds \<noteq> CHR ''+''"
    using assms isdecimal_not_special[of "hd ds"] isdecimal_not_special[of "last ds"]
    by auto
  then have body: "rev (dropWhile int_space (rev (dropWhile int_space ds))) = ds"
    using assms(1) by (simp add: strip_unchanged)
  have "int_literal ds = Some (decimal_value ds)"
    using assms(2) ds by (simp add: int_literal_def int_digits_decimal decimal_value_def)
  then show ?thesis
    using body \<open>hd ds \<noteq> CHR ''-''\<close> \<open>hd ds \<noteq> CHR ''+''\<close>
    by (simp add: py_int_def Let_def)
qed

lemma score_points_decimal:
  assumes "\<forall>c\<in>set text. isdigit c \<longrightarrow> isdecimal c"
  shows "score_points text = Inr (int (decimal_value (filter isdigit text)))"
proof (cases "filter isdigit text = []")
  case True
  then show ?thesis by (simp add: score_points_def decimal_value_def)
next
  case False
  moreover have "\<forall>c\<in>set (filter isdigit text). isdecimal c" using assms by auto
  ultimately show ?thesis
    by (simp add: score_points_def Let_def py_int_decimal)
qed

lemma front_page_posts:
  "parse_soup front_page =
     Inr [\<lparr>post_id = 123, title = ''Example'', url = ''https://news.ycombinator.com/item?id=123'',
           user = Some ''alice'', points = 456, time_posted = Some ''2024-01-01T00:00:00Z''\<rparr>]"
  by code_simp

section \<open>The extractor: claims\<close>

text \<open>
  Claim C2. Every record that \<open>parse_posts\<close> returns has a positive id and a non-empty
  title. The records returned are those of the item rows, in document order, and an item
  row whose identifier attribute is missing, not numeric or not positive, or whose title
  is empty, gives none.
\<close>

theorem parse_posts_valid_records:
  assumes "parse_posts BeautifulSoup html = Inr posts"
  shows "(\<forall>p\<in>set posts. 0 < post_id p \<and> title p \<noteq> [])
       \<and> posts = concat (map row_records (item_rows (BeautifulSoup html)))
       \<and> (\<forall>row\<in>set (item_rows (BeautifulSoup html)).
            id_attr_invalid row \<or> row_title row = [] \<longrightarrow> row_records row = [])"
proof -
  have eq: "posts = concat (map row_records (item_rows (BeautifulSoup html)))"
    using assms parse_rows_records[of "item_rows (BeautifulSoup html)" "[]" posts]
    by (simp add: parse_posts_def parse_soup_def)
  then have "\<forall>p\<in>set posts. 0 < post_id p \<and> title p \<noteq> []"
    using row_records_valid by auto
  with eq show ?thesis
    using row_records_invalid by blast
qed

theorem parse_posts_valid_records_witness:
  "parse_posts (\<lambda>html. front_page) ''<html>'' =
     Inr [\<lparr>post_id = 123, title = ''Example'', url = ''https://news.ycombinator.com/item?id=123'',
           user = Some ''alice'', points = 456, time_posted = Some ''2024-01-01T00:00:00Z''\<rparr>]
   \<and> concat (map row_records (item_rows front_page)) =
     [\<lparr>post_id = 123, title = ''Example'', url = ''https://news.ycombinator.com/item?id=123'',
       user = Some ''alice'', points = 456, time_posted = Some ''2024-01-01T00:00:00Z''\<rparr>]
   \<and> item_rows front_page ! 1 \<in> set (item_rows front_page)
   \<and> id_attr_invalid (item_rows front_page ! 1)
   \<and> row_records (item_rows front_page ! 1) = []
   \<and> item_rows front_page ! 3 \<in> set (item_rows front_page)
   \<and> row_title (item_rows front_page ! 3) = []
   \<and> row_records (item_rows front_page ! 3) = []"
proof -
  have h: "parse_posts (\<lambda>html. front_page) ''<html>'' =
     Inr [\<lparr>post_id = 123, title = ''Example'', url = ''https://news.ycombinator.com/item?id=123'',
           user = Some ''alice'', points = 456, time_posted = Some ''2024-01-01T00:00:00Z''\<rparr>]"
    by (simp add: parse_posts_def front_page_posts)
  have m1: "item_rows front_page ! 1 \<in> set (item_rows front_page)" by code_simp
  have i1: "id_attr_invalid (item_rows front_page ! 1)" by code_simp
  have m3: "item_rows front_page ! 3 \<in> set (item_rows front_page)" by code_simp
  have t3: "row_title (item_rows front_page ! 3) = []" by code_simp
  from parse_posts_valid_records[OF h] h m1 i1 m3 t3 show ?thesis
    by auto
qed

text \<open>
  Claim C6. A row without a link element has the empty url. Otherwise the link is the
  value of \<open>href\<close> (empty when the attribute is missing); the url is the link with
  \<open>https://news.ycombinator.com/\<close> put before it when the link begins with \<open>item?id=\<close>, and
  the link itself in every other case. It is the url of the record that the row gives.
\<close>

theorem url_normalization:
  "(anchor row = None \<longrightarrow> row_url row = [])
   \<and> (\<forall>a. anchor row = Some a \<longrightarrow>
        row_link row = (case get (el a) ''href'' of Some href \<Rightarrow> href | None \<Rightarrow> []))
   \<and> ((\<exists>r. row_link row = ''item?id='' @ r) \<longrightarrow>
        row_url row = ''https://news.ycombinator.com/'' @ row_link row)
   \<and> (\<not> (\<exists>r. row_link row = ''item?id='' @ r) \<longrightarrow> row_url row = row_link row)
   \<and> (\<forall>p. parse_row row = Inr (Some p) \<longrightarrow> url p = row_url row)"
proof (intro conjI allI impI)
  show "row_url row = []" if "anchor row = None"
    using that by (simp add: row_url_def row_link_def normalize_url_def)
  show "row_link row = (case get (el a) ''href'' of Some href \<Rightarrow> href | None \<Rightarrow> [])"
    if "anchor row = Some a" for a
    using that by (simp add: row_link_def)
  show "row_url row = ''https://news.ycombinator.com/'' @ row_link row"
    if "\<exists>r. row_link row = ''item?id='' @ r"
    using that unfolding row_url_def normalize_url_def startswith_iff by simp
  show "row_url row = row_link row" if "\<not> (\<exists>r. row_link row = ''item?id='' @ r)"
    using that unfolding row_url_def normalize_url_def startswith_iff by simp
  show "url p = row_url row" if "parse_row row = Inr (Some p)" for p
    using that by (simp add: parse_row_SomeD)
qed

theorem url_normalization_witness:
  "row_link (bare_row ''item?id=42'') = ''item?id='' @ ''42''
   \<and> row_url (bare_row ''item?id=42'') = ''https://news.ycombinator.com/item?id=42''
   \<and> row_link (bare_row ''https://a.example/'') = ''https://a.example/''
   \<and> row_url (bare_row ''https://a.example/'') = ''https://a.example/''
   \<and> anchor linkless_row = None
   \<and> row_url linkless_row = []"
proof -
  have l1: "row_link (bare_row ''item?id=42'') = ''item?id=42''" by code_simp
  have l2: "row_link (bare_row ''https://a.example/'') = ''https://a.example/''" by code_simp
  have a0: "anchor linkless_row = None" by code_simp
  have p1: "\<exists>r. row_link (bare_row ''item?id=42'') = ''item?id='' @ r"
    using l1 by simp
  have p2: "\<not> (\<exists>r. row_link (bare_row ''https://a.example/'') = ''item?id='' @ r)"
    using l2 by simp
  from url_normalization[of "bare_row ''item?id=42''"] p1 l1
  have u1: "row_url (bare_row ''item?id=42'') = ''https://news.ycombinator.com/item?id=42''"
    by simp
  from url_normalization[of "bare_row ''https://a.example/''"] p2 l2
  have u2: "row_url (bare_row ''https://a.example/'') = ''https://a.example/''"
    by simp
  from url_normalization[of linkless_row] a0
  have u0: "row_url linkless_row = []"
    by simp
  show ?thesis using l1 l2 a0 u0 u1 u2 by simp
qed

text \<open>
  Claim C7. When no \<open>tr\<close> sibling after an item row contains a \<open>td.subtext\<close>, the row raises
  no exception; it is discarded only for its id or title, and its record has no user,
  0 points and no \<open>time_posted\<close>.
\<close>

theorem subtext_absent_defaults:
  assumes "\<forall>s\<in>set (following_rows row). select_one [Compound ''td'' (Some ''subtext'')] s = None"
  shows "parse_row row =
     Inr (case row_post_id row of
            None \<Rightarrow> None
          | Some i \<Rightarrow>
              if i \<le> 0 \<or> row_title row = [] then None
              else Some \<lparr>post_id = i, title = row_title row, url = row_url row,
                         user = None, points = 0, time_posted = None\<rparr>)"
  using subtext_td_None[OF assms]
  by (simp add: parse_row_def subtext_fields_def split: option.splits)

theorem subtext_absent_defaults_witness:
  "length (following_rows (bare_row ''https://a.example/'')) = 1
   \<and> list_all (\<lambda>s. select_one [Compound ''td'' (Some ''subtext'')] s = None)
        (following_rows (bare_row ''https://a.example/''))
   \<and> parse_row (bare_row ''https://a.example/'') =
       Inr (Some \<lparr>post_id = 42, title = ''Story'', url = ''https://a.example/'',
                  user = None, points = 0, time_posted = None\<rparr>)"
proof -
  have n: "length (following_rows (bare_row ''https://a.example/'')) = 1" by code_simp
  have a: "list_all (\<lambda>s. select_one [Compound ''td'' (Some ''subtext'')] s = None)
        (following_rows (bare_row ''https://a.example/''))" by code_simp
  then have h: "\<forall>s\<in>set (following_rows (bare_row ''https://a.example/'')).
        select_one [Compound ''td'' (Some ''subtext'')] s = None"
    by (simp add: list_all_iff)
  have i: "row_post_id (bare_row ''https://a.example/'') = Some 42" by code_simp
  have t: "row_title (bare_row ''https://a.example/'') = ''Story''" by code_simp
  have u: "row_url (bare_row ''https://a.example/'') = ''https://a.example/''" by code_simp
  from subtext_absent_defaults[OF h] n a i t u show ?thesis
    by simp
qed

section \<open>The run: lemmas\<close>

lemma upsert_posts_closed:
  assumes "upsert_posts c now posts = (r, c')"
  shows "closed c' = closed c"
proof (cases "\<not> closed c \<and> (posts = [] \<or> posts_table c) \<and> (\<forall>p\<in>set posts. accepted p)")
  case True
  then show ?thesis
    using assms upsert_posts_ok[of c posts now] by auto
next
  case False
  show ?thesis
  proof (cases "posts = []")
    case True
    with False have "closed c" by simp
    with True assms show ?thesis by (auto simp: upsert_posts_def commit_def)
  next
    case ne: False
    with False have "closed c \<or> \<not> posts_table c \<or> (\<exists>p\<in>set posts. \<not> accepted p)" by auto
    from upsert_posts_fail[OF ne this, of now] assms show ?thesis by auto
  qed
qed

lemma ensure_db_connect:
  "ensure_db (connect env) =
     (Inr (), \<lparr>committed = (case hs_db env of None \<Rightarrow> [] | Some t \<Rightarrow> t), pending = None,
               posts_table = True, journal_wal = True, closed = False\<rparr>)"
  by (simp add: ensure_db_def connect_def view_def)

text \<open>
  For every parser and every environment: \<open>main\<close> leaves the connection closed exactly
  when it returns 0.
\<close>

lemma main_closed_iff:
  "closed (run_conn (main BeautifulSoup env)) \<longleftrightarrow> exit_code (main BeautifulSoup env) = 0"
proof -
  let ?c = "\<lparr>committed = (case hs_db env of None \<Rightarrow> [] | Some t \<Rightarrow> t), pending = None,
               posts_table = True, journal_wal = True, closed = False\<rparr>"
  show ?thesis
  proof (cases "get_html env")
    case (Pair h out)
    show ?thesis
    proof (cases h)
      case (Inl e)
      with Pair show ?thesis by (simp add: main_def ensure_db_connect)
    next
      case (Inr html)
      show ?thesis
      proof (cases "parse_posts BeautifulSoup html")
        case (Inl e)
        with Pair Inr show ?thesis by (simp add: main_def ensure_db_connect)
      next
        case posts: (Inr posts)
        obtain r c' where u: "upsert_posts ?c (now_upsert env) posts = (r, c')"
          by (cases "upsert_posts ?c (now_upsert env) posts") auto
        from upsert_posts_closed[OF u] have "\<not> closed c'" by simp
        with Pair Inr posts u show ?thesis
          by (cases r) (simp_all add: main_def ensure_db_connect close_def)
      qed
    qed
  qed
qed

section \<open>Where the program departs from the claims\<close>

lemma superscript_page_raises: "parse_soup superscript_page = Inl ValueError"
  by code_simp

text \<open>
  Claim C5. The points are the number formed by the digit characters of the score text,
  and 0 when there is none. The program does this for every text whose \<open>isdigit\<close>
  characters are decimal digits (lemma \<open>score_points_decimal\<close>). It selects the characters
  with \<open>str.isdigit\<close>, though, which also accepts the superscript digits, and \<open>int\<close> does
  not read these: for the score text \<open>5\<close>, U+00B2, \<open> pts\<close> line 107 raises \<open>ValueError\<close>,
  and so does \<open>parse_posts\<close>.
\<close>

theorem score_points_superscript_digit:
  "isdigit (CHR 0xB2) \<and> \<not> isdecimal (CHR 0xB2)
   \<and> score_points [CHR ''5'', CHR 0xB2, CHR '' '', CHR ''p'', CHR ''t'', CHR ''s''] = Inl ValueError
   \<and> parse_posts (\<lambda>html. superscript_page) ''<html>'' = Inl ValueError"
proof -
  have "isdigit (CHR 0xB2) \<and> \<not> isdecimal (CHR 0xB2)"
    by code_simp
  moreover have "score_points [CHR ''5'', CHR 0xB2, CHR '' '', CHR ''p'', CHR ''t'', CHR ''s'']
      = Inl ValueError"
    by code_simp
  ultimately show ?thesis
    using superscript_page_raises by (simp add: parse_posts_def)
qed

text \<open>
  Claim C8. The connection is closed at the end of every run. \<open>main\<close> closes it at
  line 160, inside the \<open>try\<close> block: a run that ends in the handler of line 162 never gets
  there. Two such runs: the request fails and \<open>dummy.html\<close> is missing; the page makes
  \<open>parse_posts\<close> raise. Both return 1 and leave the connection open.
\<close>

theorem main_failure_leaves_connection_open:
  "exit_code (main (\<lambda>html. front_page) offline) = 1
   \<and> \<not> closed (run_conn (main (\<lambda>html. front_page) offline))
   \<and> messages (main (\<lambda>html. front_page) offline) =
       [FetchFailed RequestException, ScrapeFailed FileNotFoundError]
   \<and> exit_code (main (\<lambda>html. superscript_page) online) = 1
   \<and> \<not> closed (run_conn (main (\<lambda>html. superscript_page) online))
   \<and> messages (main (\<lambda>html. superscript_page) online) = [ScrapeFailed ValueError]"
  using superscript_page_raises
  by (simp add: main_def ensure_db_connect get_html_def offline_def online_def parse_posts_def)

end
